theory Spec2Isabelle
  imports Main "HOL-Library.AList"
begin

section \<open>The key-value session store of \<open>use-multi-file-auth-state-prisma.ts\<close>\<close>

text \<open>
  The module persists the authentication state of one messaging session: the credentials
  in a relational table (one row per session identifier), every other keyed entry either
  in a cache (a hash per session) or in one file per entry under the session's directory.
  The embedding follows the source function by function. An \<open>async\<close> function is a
  function from the state of the three stores to an outcome and the new state; a rejected
  promise (a thrown error) is the outcome \<open>Inl\<close>.
\<close>

subsection \<open>JavaScript values\<close>

text \<open>
  The values that travel through the store (\<open>any\<close> in the source). Numbers are kept as
  integers; a \<open>Buffer\<close> is its list of bytes; an object is the list of its own properties
  in insertion order.
\<close>

datatype jsval =
    JUndefined
  | JNull
  | JBool bool
  | JNum int
  | JStr string
  | JBuffer "nat list"
  | JArr "jsval list"
  | JObj "(string \<times> jsval) list"

text \<open>What \<open>if (v)\<close>, \<open>!v\<close> and \<open>v ? a : b\<close> test.\<close>

fun truthy :: "jsval \<Rightarrow> bool" where
  "truthy JUndefined = False"
| "truthy JNull = False"
| "truthy (JBool b) = b"
| "truthy (JNum n) = (n \<noteq> 0)"
| "truthy (JStr s) = (s \<noteq> [])"
| "truthy (JBuffer bs) = True"
| "truthy (JArr vs) = True"
| "truthy (JObj kvs) = True"

text \<open>The values of type \<open>object\<close>: records, sequences and byte arrays.\<close>

fun is_object :: "jsval \<Rightarrow> bool" where
  "is_object (JBuffer bs) = True"
| "is_object (JArr vs) = True"
| "is_object (JObj kvs) = True"
| "is_object v = False"

text \<open>
  \<open>data[id] = value\<close> on an object created by the literal \<open>{}\<close>. An existing own property
  keeps its place, a new one goes last. The name \<open>__proto__\<close> is the exception of the
  language: the assignment reaches the accessor inherited from \<open>Object.prototype\<close> and
  creates no own property (the prototype link itself is not part of this model).
\<close>

definition obj_assign :: "(string \<times> jsval) list \<Rightarrow> string \<Rightarrow> jsval \<Rightarrow> (string \<times> jsval) list" where
  "obj_assign data k v = (if k = ''__proto__'' then data else AList.update k v data)"

subsection \<open>Errors, stores and promises\<close>

datatype backend_op =
    FindUnique string
  | Create string
  | Update string
  | Delete string
  | HSet string string
  | HGet string string
  | HDelete string string
  | Mkdir string
  | Stat string
  | ReadFile string
  | WriteFile string
  | Unlink string

datatype error =
    BackendError string
  | UniqueConstraint string
  | RecordNotFound string
  | ENOENT string
  | EISDIR string
  | SyntaxError string
  | TypeError string
  | Error string

text \<open>The interface \<open>SessionData\<close>: one row of the relational table.\<close>

record session_data =
  sessionId :: string
  creds :: string

record world =
  session :: "session_data list"
  redis :: "string \<times> string \<Rightarrow> jsval option"
  files :: "string \<Rightarrow> string option"
  dirs :: "string set"
  console :: "string list"

text \<open>
  What the module takes from its surroundings and does not define: the configuration
  (\<open>INSTANCE_DIR\<close>, \<open>process.env.CACHE_REDIS_ENABLED\<close>), the JSON functions of the language
  with and without the \<open>BufferJSON\<close> replacer and reviver of the protocol library, the
  protocol library's \<open>initAuthCreds\<close> (the value this call returns) and
  \<open>proto.Message.AppStateSyncKeyData.fromObject\<close>, and which calls to a backend fail
  for reasons outside the stores' contents (\<open>faults\<close>: an unreachable database, a
  permission error).
\<close>

record env =
  INSTANCE_DIR :: string
  CACHE_REDIS_ENABLED :: "string option"
  JSON_stringify :: "jsval \<Rightarrow> string"
  JSON_stringify_replacer :: "jsval \<Rightarrow> string"
  JSON_parse :: "string \<Rightarrow> error + jsval"
  JSON_parse_reviver :: "string \<Rightarrow> error + jsval"
  initAuthCreds :: jsval
  fromObject :: "jsval \<Rightarrow> error + jsval"
  faults :: "backend_op \<Rightarrow> error option"

type_synonym 'a promise = "world \<Rightarrow> (error + 'a) \<times> world"

definition resolve :: "'a \<Rightarrow> 'a promise" where
  "resolve v = (\<lambda>w. (Inr v, w))"

definition reject :: "error \<Rightarrow> 'a promise" where
  "reject e = (\<lambda>w. (Inl e, w))"

text \<open>\<open>const x = await m; f x\<close>: a rejection of \<open>m\<close> skips \<open>f\<close>.\<close>

definition await :: "'a promise \<Rightarrow> ('a \<Rightarrow> 'b promise) \<Rightarrow> 'b promise" where
  "await m f = (\<lambda>w. case m w of (Inl e, w') \<Rightarrow> (Inl e, w') | (Inr v, w') \<Rightarrow> f v w')"

text \<open>\<open>try { m } catch (error) { h error }\<close>\<close>

definition try_catch :: "'a promise \<Rightarrow> (error \<Rightarrow> 'a promise) \<Rightarrow> 'a promise" where
  "try_catch m h = (\<lambda>w. case m w of (Inl e, w') \<Rightarrow> h e w' | (Inr v, w') \<Rightarrow> (Inr v, w'))"

text \<open>A synchronous call that returns or throws, inside an \<open>async\<close> function.\<close>

definition returned :: "error + 'a \<Rightarrow> 'a promise" where
  "returned r = (\<lambda>w. (r, w))"

text \<open>\<open>console.error\<close>; the message is kept, the printed error object is not.\<close>

definition console_error :: "string \<Rightarrow> unit promise" where
  "console_error msg = (\<lambda>w. (Inr (), w\<lparr>console := console w @ [msg]\<rparr>))"

text \<open>
  \<open>Promise.all\<close> over tasks that were all started when the list was built: every task
  runs, whether or not another one rejects; the result is the list of values, or the
  first rejection. The tasks are run here one after the other, in the order of the list.
\<close>

fun promise_all :: "'a promise list \<Rightarrow> 'a list promise" where
  "promise_all [] w = (Inr [], w)"
| "promise_all (t # ts) w =
     (case t w of (r, w1) \<Rightarrow>
        (case promise_all ts w1 of (rs, w2) \<Rightarrow>
           (case r of
              Inl e \<Rightarrow> (Inl e, w2)
            | Inr v \<Rightarrow> (case rs of Inl e \<Rightarrow> (Inl e, w2) | Inr vs \<Rightarrow> (Inr (v # vs), w2)))))"

text \<open>A call to a backend: it throws when the environment makes it fail.\<close>

definition backend :: "env \<Rightarrow> backend_op \<Rightarrow> 'a promise \<Rightarrow> 'a promise" where
  "backend E op m = (case faults E op of Some e \<Rightarrow> reject e | None \<Rightarrow> m)"

subsection \<open>The three backends\<close>

text \<open>
  The relational store is \<open>prismaRepository.session\<close> of the module \<open>@api/server.module\<close>,
  the cache is the \<open>CacheService\<close> of \<open>@api/services/cache.service\<close>; the source of
  neither is at hand, so both follow their contracts in the specification.
\<close>

text \<open>
  Modelled from the spec: \<open>prismaRepository.session.findUnique\<close>, the find-by-key of the
  relational store contract (a record keyed by session identifier with a single
  serialized-text field).
\<close>

definition prisma_findUnique :: "env \<Rightarrow> string \<Rightarrow> session_data option promise" where
  "prisma_findUnique E sid =
     backend E (FindUnique sid) (\<lambda>w. (Inr (find (\<lambda>r. sessionId r = sid) (session w)), w))"

text \<open>
  Modelled from the spec: \<open>prismaRepository.session.create\<close>, the insert of the relational
  store contract. The session identifier is the key of the record (\<open>findUnique\<close> and
  \<open>update\<close> address a row by it), so the insert of a key that is present fails.
\<close>

definition prisma_create :: "env \<Rightarrow> session_data \<Rightarrow> session_data promise" where
  "prisma_create E data =
     backend E (Create (sessionId data))
       (\<lambda>w. if sessionId data \<in> sessionId ` set (session w)
             then (Inl (UniqueConstraint (sessionId data)), w)
             else (Inr data, w\<lparr>session := session w @ [data]\<rparr>))"

text \<open>
  Modelled from the spec: \<open>prismaRepository.session.update\<close>, the update-by-key of the
  relational store contract; it fails when no record has the key.
\<close>

definition prisma_update :: "env \<Rightarrow> string \<Rightarrow> string \<Rightarrow> session_data promise" where
  "prisma_update E sid c =
     backend E (Update sid)
       (\<lambda>w. if sid \<in> sessionId ` set (session w)
             then (Inr \<lparr>sessionId = sid, creds = c\<rparr>,
                   w\<lparr>session := map (\<lambda>r. if sessionId r = sid then r\<lparr>creds := c\<rparr> else r) (session w)\<rparr>)
             else (Inl (RecordNotFound sid), w))"

text \<open>
  Modelled from the spec: \<open>prismaRepository.session.delete\<close>, the delete-by-key of the
  relational store contract; it fails when no record has the key.
\<close>

definition prisma_delete :: "env \<Rightarrow> string \<Rightarrow> session_data promise" where
  "prisma_delete E sid =
     backend E (Delete sid)
       (\<lambda>w. case find (\<lambda>r. sessionId r = sid) (session w) of
               None \<Rightarrow> (Inl (RecordNotFound sid), w)
             | Some r \<Rightarrow> (Inr r, w\<lparr>session := filter (\<lambda>r. sessionId r \<noteq> sid) (session w)\<rparr>))"

text \<open>
  Modelled from the spec: \<open>CacheService.hSet(namespace, field, value)\<close> on the namespaced
  hash-map keyed by the session identifier, with the entry key as field name. The
  cache's own representation of binary sub-fields is not modelled: a value is read back
  as it was stored.
\<close>

definition hSet :: "env \<Rightarrow> string \<Rightarrow> string \<Rightarrow> jsval \<Rightarrow> jsval promise" where
  "hSet E ns field v =
     backend E (HSet ns field) (\<lambda>w. (Inr JUndefined, w\<lparr>redis := (redis w)((ns, field) \<mapsto> v)\<rparr>))"

text \<open>
  Modelled from the spec: \<open>CacheService.hGet(namespace, field) -> value | null\<close>.
\<close>

definition hGet :: "env \<Rightarrow> string \<Rightarrow> string \<Rightarrow> jsval promise" where
  "hGet E ns field =
     backend E (HGet ns field)
       (\<lambda>w. (Inr (case redis w (ns, field) of None \<Rightarrow> JNull | Some v \<Rightarrow> v), w))"

text \<open>
  Modelled from the spec: \<open>CacheService.hDelete(namespace, field) -> bool\<close>, true iff a
  field was actually removed.
\<close>

definition hDelete :: "env \<Rightarrow> string \<Rightarrow> string \<Rightarrow> bool promise" where
  "hDelete E ns field =
     backend E (HDelete ns field)
       (\<lambda>w. (Inr (redis w (ns, field) \<noteq> None), w\<lparr>redis := (redis w)((ns, field) := None)\<rparr>))"

text \<open>
  The calls of \<open>fs/promises\<close> and \<open>path\<close> that the module makes. A path names a file, a
  directory or nothing. \<open>path.join\<close> is taken without its normalisation of \<open>.\<close> and
  \<open>..\<close> segments.
\<close>

definition path_join :: "string \<Rightarrow> string \<Rightarrow> string" where
  "path_join a b = a @ ''/'' @ b"

definition fs_mkdir :: "env \<Rightarrow> string \<Rightarrow> unit promise" where
  "fs_mkdir E p = backend E (Mkdir p) (\<lambda>w. (Inr (), w\<lparr>dirs := insert p (dirs w)\<rparr>))"

text \<open>\<open>(await fs.stat(file)).isFile()\<close>\<close>

definition fs_stat_isFile :: "env \<Rightarrow> string \<Rightarrow> bool promise" where
  "fs_stat_isFile E p =
     backend E (Stat p)
       (\<lambda>w. if files w p \<noteq> None then (Inr True, w)
             else if p \<in> dirs w then (Inr False, w)
             else (Inl (ENOENT p), w))"

definition fs_readFile :: "env \<Rightarrow> string \<Rightarrow> string promise" where
  "fs_readFile E p =
     backend E (ReadFile p)
       (\<lambda>w. case files w p of
               Some c \<Rightarrow> (Inr c, w)
             | None \<Rightarrow> (Inl (if p \<in> dirs w then EISDIR p else ENOENT p), w))"

definition fs_writeFile :: "env \<Rightarrow> string \<Rightarrow> string \<Rightarrow> unit promise" where
  "fs_writeFile E p c =
     backend E (WriteFile p)
       (\<lambda>w. if p \<in> dirs w then (Inl (EISDIR p), w)
             else (Inr (), w\<lparr>files := (files w)(p \<mapsto> c)\<rparr>))"

definition fs_unlink :: "env \<Rightarrow> string \<Rightarrow> unit promise" where
  "fs_unlink E p =
     backend E (Unlink p)
       (\<lambda>w. case files w p of
               None \<Rightarrow> (Inl (ENOENT p), w)
             | Some c \<Rightarrow> (Inr (), w\<lparr>files := (files w)(p := None)\<rparr>))"

subsection \<open>The module\<close>

text \<open>\<open>String.prototype.replace\<close> with a one-character pattern under the flag \<open>g\<close>.\<close>

fun replace_all :: "char \<Rightarrow> string \<Rightarrow> string \<Rightarrow> string" where
  "replace_all c r [] = []"
| "replace_all c r (x # xs) = (if x = c then r else [x]) @ replace_all c r xs"

text \<open>\<open>fixFileName\<close>; \<open>None\<close> is \<open>undefined\<close>, returned for the empty string.\<close>

definition fixFileName :: "string \<Rightarrow> string option" where
  "fixFileName file =
     (if file = [] then None
      else Some (replace_all CHR '':'' ''-'' (replace_all CHR ''/'' ''__'' file)))"

definition isRedisEnabled :: "env \<Rightarrow> bool" where
  "isRedisEnabled E \<longleftrightarrow> CACHE_REDIS_ENABLED E = Some ''true''"

definition fileExists :: "env \<Rightarrow> string \<Rightarrow> bool promise" where
  "fileExists E file = try_catch (fs_stat_isFile E file) (\<lambda>error. resolve False)"

definition keyExists :: "env \<Rightarrow> string \<Rightarrow> bool promise" where
  "keyExists E sid =
     try_catch
       (await (prisma_findUnique E sid) (\<lambda>key. resolve (key \<noteq> None)))
       (\<lambda>error.
          await (console_error (''Error checking key existence for session '' @ sid @ '':''))
            (\<lambda>_. resolve False))"

text \<open>\<open>saveKey\<close>; the result \<open>None\<close> is the \<open>null\<close> returned after a caught error.\<close>

definition saveKey :: "env \<Rightarrow> string \<Rightarrow> jsval \<Rightarrow> session_data option promise" where
  "saveKey E sid keyJson =
     try_catch
       (await (keyExists E sid) (\<lambda>exists.
          let data = \<lparr>sessionId = sid, creds = JSON_stringify E keyJson\<rparr> in
          if \<not> exists then await (prisma_create E data) (\<lambda>row. resolve (Some row))
          else await (prisma_update E sid (creds data)) (\<lambda>row. resolve (Some row))))
       (\<lambda>error.
          await (console_error (''Error saving key for session '' @ sid @ '':''))
            (\<lambda>_. resolve None))"

definition getAuthKey :: "env \<Rightarrow> string \<Rightarrow> jsval promise" where
  "getAuthKey E sid =
     try_catch
       (await (prisma_findUnique E sid) (\<lambda>auth.
          case auth of
            Some row \<Rightarrow> returned (JSON_parse E (creds row))
          | None \<Rightarrow> resolve JNull))
       (\<lambda>error.
          await (console_error (''Error getting auth key for session '' @ sid @ '':''))
            (\<lambda>_. resolve JNull))"

definition deleteAuthKey :: "env \<Rightarrow> string \<Rightarrow> unit promise" where
  "deleteAuthKey E sid =
     try_catch
       (await (prisma_delete E sid) (\<lambda>_. resolve ()))
       (\<lambda>error.
          await (console_error (''Error deleting auth key for session '' @ sid @ '':''))
            (\<lambda>_. resolve ()))"

definition localFolder :: "env \<Rightarrow> string \<Rightarrow> string" where
  "localFolder E sid = path_join (INSTANCE_DIR E) sid"

text \<open>The template \<open>`${fixFileName(key)}.json`\<close> prints \<open>undefined\<close> as the word.\<close>

definition localFile :: "env \<Rightarrow> string \<Rightarrow> string \<Rightarrow> string" where
  "localFile E sid key =
     path_join (localFolder E sid)
       ((case fixFileName key of None \<Rightarrow> ''undefined'' | Some name \<Rightarrow> name) @ ''.json'')"

text \<open>A row, or the \<open>null\<close> of \<open>saveKey\<close>, as the value that \<open>writeData\<close> hands on.\<close>

definition row_value :: "session_data option \<Rightarrow> jsval" where
  "row_value r =
     (case r of
        None \<Rightarrow> JNull
      | Some row \<Rightarrow> JObj [(''sessionId'', JStr (sessionId row)), (''creds'', JStr (creds row))])"

definition writeData :: "env \<Rightarrow> string \<Rightarrow> jsval \<Rightarrow> string \<Rightarrow> jsval promise" where
  "writeData E sid data key =
     try_catch
       (let dataString = JSON_stringify_replacer E data in
        if key = ''creds'' then
          await (saveKey E sid (JStr dataString)) (\<lambda>r. resolve (row_value r))
        else if isRedisEnabled E then
          hSet E sid key data
        else
          await (fs_writeFile E (localFile E sid key) dataString) (\<lambda>_. resolve (JBool True)))
       (\<lambda>error.
          await (console_error (''Error writing data for key '' @ key @ '':''))
            (\<lambda>_. reject error))"

text \<open>The \<open>try\<close> block of \<open>readData\<close>, and \<open>readData\<close> with its \<open>catch\<close>.\<close>

definition readData_try :: "env \<Rightarrow> string \<Rightarrow> string \<Rightarrow> jsval promise" where
  "readData_try E sid key =
     (if key = ''creds'' then
        getAuthKey E sid
      else if isRedisEnabled E then
        await (hGet E sid key) (\<lambda>data.
          if truthy data then returned (JSON_parse_reviver E (JSON_stringify E data))
          else resolve JNull)
      else
        await (fileExists E (localFile E sid key)) (\<lambda>exists.
          if \<not> exists then resolve JNull
          else await (fs_readFile E (localFile E sid key)) (\<lambda>rawData.
                 returned (JSON_parse_reviver E rawData))))"

definition readData :: "env \<Rightarrow> string \<Rightarrow> string \<Rightarrow> jsval promise" where
  "readData E sid key =
     try_catch (readData_try E sid key)
       (\<lambda>error.
          await (console_error (''Error reading data for key '' @ key @ '':''))
            (\<lambda>_. resolve JNull))"

definition removeData :: "env \<Rightarrow> string \<Rightarrow> string \<Rightarrow> jsval promise" where
  "removeData E sid key =
     try_catch
       (if key = ''creds'' then
          await (deleteAuthKey E sid) (\<lambda>_. resolve JUndefined)
        else if isRedisEnabled E then
          await (hDelete E sid key) (\<lambda>deleted.
            if \<not> deleted then reject (Error (''Failed to delete key '' @ key @ '' from Redis''))
            else resolve (JBool deleted))
        else
          await (fs_unlink E (localFile E sid key)) (\<lambda>_. resolve (JBool True)))
       (\<lambda>error.
          await (console_error (''Error removing data for key '' @ key @ '':''))
            (\<lambda>_. reject error))"

text \<open>
  \<open>useMultiFileAuthStatePrisma\<close> up to its \<open>return\<close>; the result is \<open>creds\<close>, the value
  that the returned \<open>state.creds\<close> holds and that \<open>saveCreds\<close> closes over.
\<close>

definition useMultiFileAuthStatePrisma :: "env \<Rightarrow> string \<Rightarrow> jsval promise" where
  "useMultiFileAuthStatePrisma E sid =
     await (fs_mkdir E (localFolder E sid)) (\<lambda>_.
       await (readData E sid ''creds'') (\<lambda>creds.
         if \<not> truthy creds then
           (let creds = initAuthCreds E in
            await (writeData E sid creds ''creds'') (\<lambda>_. resolve creds))
         else resolve creds))"

text \<open>
  \<open>state.keys.get\<close>. One callback of \<open>ids.map\<close> reads an entry and yields the binding
  that it writes into \<open>data\<close>; the bindings are written in the order of \<open>ids\<close> once all
  callbacks are through (a rejected \<open>Promise.all\<close> returns no \<open>data\<close>).
\<close>

definition get_entry :: "env \<Rightarrow> string \<Rightarrow> string \<Rightarrow> string \<Rightarrow> (string \<times> jsval) promise" where
  "get_entry E sid type id' =
     await (readData E sid (type @ ''-'' @ id')) (\<lambda>value.
       if type = ''app-state-sync-key'' \<and> truthy value then
         await (returned (fromObject E value)) (\<lambda>value. resolve (id', value))
       else resolve (id', value))"

definition keys_get :: "env \<Rightarrow> string \<Rightarrow> string \<Rightarrow> string list \<Rightarrow> (string \<times> jsval) list promise" where
  "keys_get E sid type ids =
     await (promise_all (map (get_entry E sid type) ids)) (\<lambda>bindings.
       resolve (foldl (\<lambda>data (id', value). obj_assign data id' value) [] bindings))"

text \<open>
  \<open>state.keys.set\<close>. The argument is an object of objects, here the list of its
  categories, each with the list of its entries, in the order of \<open>for ... in\<close>.
\<close>

definition set_task :: "env \<Rightarrow> string \<Rightarrow> string \<Rightarrow> string \<Rightarrow> jsval \<Rightarrow> jsval promise" where
  "set_task E sid category id' value =
     (let key = category @ ''-'' @ id' in
      if truthy value then writeData E sid value key else removeData E sid key)"

definition set_tasks ::
  "env \<Rightarrow> string \<Rightarrow> (string \<times> (string \<times> jsval) list) list \<Rightarrow> jsval promise list" where
  "set_tasks E sid data =
     concat (map (\<lambda>(category, entries).
                    map (\<lambda>(id', value). set_task E sid category id' value) entries) data)"

definition keys_set ::
  "env \<Rightarrow> string \<Rightarrow> (string \<times> (string \<times> jsval) list) list \<Rightarrow> unit promise" where
  "keys_set E sid data = await (promise_all (set_tasks E sid data)) (\<lambda>_. resolve ())"

definition saveCreds :: "env \<Rightarrow> string \<Rightarrow> jsval \<Rightarrow> jsval promise" where
  "saveCreds E sid creds' = writeData E sid creds' ''creds''"

subsection \<open>Notions used in the statements\<close>

text \<open>
  Two names differ confusably when, at the first position where they differ, one has a
  character that \<open>fixFileName\<close> rewrites and the other the character it is rewritten to: a
  slash against an underscore, or a colon against a dash.
\<close>

fun differ_confusably :: "string \<Rightarrow> string \<Rightarrow> bool" where
  "differ_confusably (a # x) (b # y) =
     (if a = b then differ_confusably x y
      else (a = CHR ''/'' \<and> b = CHR ''_'') \<or> (a = CHR ''_'' \<and> b = CHR ''/'') \<or>
           (a = CHR '':'' \<and> b = CHR ''-'') \<or> (a = CHR ''-'' \<and> b = CHR '':''))"
| "differ_confusably x y = False"





text \<open>Both passes of \<open>fixFileName\<close> at once: each character is rewritten on its own.\<close>

definition rewrite :: "char \<Rightarrow> string" where
  "rewrite x = (if x = CHR ''/'' then ''__'' else if x = CHR '':'' then ''-'' else [x])"

subsection \<open>An environment to run the module in\<close>

text \<open>
  The JSON functions of the language on the texts that \<open>JSON.stringify\<close> itself
  produces: no white space, integer numbers, and of the escapes those of the quote and
  of the backslash. A \<open>Buffer\<close> is printed through its \<open>toJSON\<close>.
\<close>

definition digit_char :: "nat \<Rightarrow> char" where
  "digit_char n = ''0123456789'' ! n"

fun print_nat :: "nat \<Rightarrow> nat \<Rightarrow> string" where
  "print_nat 0 n = []"
| "print_nat (Suc fuel) n =
     (if n < 10 then [digit_char n] else print_nat fuel (n div 10) @ [digit_char (n mod 10)])"

definition print_int :: "int \<Rightarrow> string" where
  "print_int i =
     (if i < 0 then CHR ''-'' # print_nat (Suc (nat (- i))) (nat (- i))
      else print_nat (Suc (nat i)) (nat i))"

fun escape :: "string \<Rightarrow> string" where
  "escape [] = []"
| "escape (c # cs) = (if c = CHR 0x22 \<or> c = CHR 0x5C then [CHR 0x5C, c] else [c]) @ escape cs"

definition quote :: "string \<Rightarrow> string" where
  "quote s = [CHR 0x22] @ escape s @ [CHR 0x22]"

fun commas :: "string list \<Rightarrow> string" where
  "commas [] = []"
| "commas [s] = s"
| "commas (s # t # ss) = s @ '','' @ commas (t # ss)"

fun json_print :: "jsval \<Rightarrow> string"
  and json_print_elems :: "jsval list \<Rightarrow> string list"
  and json_print_props :: "(string \<times> jsval) list \<Rightarrow> string list" where
  "json_print JUndefined = ''null''"
| "json_print JNull = ''null''"
| "json_print (JBool b) = (if b then ''true'' else ''false'')"
| "json_print (JNum i) = print_int i"
| "json_print (JStr s) = quote s"
| "json_print (JBuffer bs) =
     ''{'' @ quote ''type'' @ '':'' @ quote ''Buffer'' @ '','' @ quote ''data'' @ '':['' @
     commas (map (\<lambda>b. print_int (int b)) bs) @ '']}''"
| "json_print (JArr vs) = ''['' @ commas (json_print_elems vs) @ '']''"
| "json_print (JObj kvs) = ''{'' @ commas (json_print_props kvs) @ ''}''"
| "json_print_elems [] = []"
| "json_print_elems (v # vs) = json_print v # json_print_elems vs"
| "json_print_props [] = []"
| "json_print_props ((k, v) # kvs) =
     (if v = JUndefined then json_print_props kvs
      else (quote k @ '':'' @ json_print v) # json_print_props kvs)"

text \<open>The characters of a string literal, from behind its opening quote.\<close>

fun parse_chars :: "string \<Rightarrow> (string \<times> string) option" where
  "parse_chars [] = None"
| "parse_chars (c # cs) =
     (if c = CHR 0x22 then Some ([], cs)
      else if c = CHR 0x5C then
        (case cs of
           [] \<Rightarrow> None
         | e # cs' \<Rightarrow>
             if e = CHR 0x22 \<or> e = CHR 0x5C
             then map_option (\<lambda>(s, r). (e # s, r)) (parse_chars cs')
             else None)
      else map_option (\<lambda>(s, r). (c # s, r)) (parse_chars cs))"

definition digit_val :: "char \<Rightarrow> nat option" where
  "digit_val c = map_of (zip ''0123456789'' [0, 1, 2, 3, 4, 5, 6, 7, 8, 9]) c"

fun parse_digits :: "nat \<Rightarrow> string \<Rightarrow> nat \<times> string" where
  "parse_digits acc [] = (acc, [])"
| "parse_digits acc (c # cs) =
     (case digit_val c of
        None \<Rightarrow> (acc, c # cs)
      | Some d \<Rightarrow> parse_digits (10 * acc + d) cs)"

text \<open>The first argument bounds the depth of nesting; the length of the text is enough.\<close>

fun parse_value :: "nat \<Rightarrow> string \<Rightarrow> (jsval \<times> string) option"
  and parse_elems :: "nat \<Rightarrow> string \<Rightarrow> (jsval list \<times> string) option"
  and parse_props :: "nat \<Rightarrow> string \<Rightarrow> ((string \<times> jsval) list \<times> string) option" where
  "parse_value 0 cs = None"
| "parse_value (Suc n) [] = None"
| "parse_value (Suc n) (c # r) =
     (if c = CHR 0x22 then map_option (\<lambda>(s, r'). (JStr s, r')) (parse_chars r)
      else if c = CHR ''['' then
        (if take 1 r = '']'' then Some (JArr [], drop 1 r)
         else map_option (\<lambda>(vs, r'). (JArr vs, r')) (parse_elems n r))
      else if c = CHR ''{'' then
        (if take 1 r = ''}'' then Some (JObj [], drop 1 r)
         else map_option (\<lambda>(kvs, r'). (JObj kvs, r')) (parse_props n r))
      else if take 4 (c # r) = ''null'' then Some (JNull, drop 3 r)
      else if take 4 (c # r) = ''true'' then Some (JBool True, drop 3 r)
      else if take 5 (c # r) = ''false'' then Some (JBool False, drop 4 r)
      else if c = CHR ''-'' then
        (case r of
           [] \<Rightarrow> None
         | d # _ \<Rightarrow>
             if digit_val d = None then None
             else (case parse_digits 0 r of (k, r') \<Rightarrow> Some (JNum (- int k), r')))
      else if digit_val c = None then None
      else (case parse_digits 0 (c # r) of (k, r') \<Rightarrow> Some (JNum (int k), r')))"
| "parse_elems 0 cs = None"
| "parse_elems (Suc n) cs =
     (case parse_value n cs of
        None \<Rightarrow> None
      | Some (v, r) \<Rightarrow>
          (if take 1 r = '','' then
             map_option (\<lambda>(vs, r'). (v # vs, r')) (parse_elems n (drop 1 r))
           else if take 1 r = '']'' then Some ([v], drop 1 r)
           else None))"
| "parse_props 0 cs = None"
| "parse_props (Suc n) cs =
     (if take 1 cs \<noteq> [CHR 0x22] then None
      else case parse_chars (drop 1 cs) of
        None \<Rightarrow> None
      | Some (k, r) \<Rightarrow>
          (if take 1 r \<noteq> '':'' then None
           else case parse_value n (drop 1 r) of
             None \<Rightarrow> None
           | Some (v, r') \<Rightarrow>
               (if take 1 r' = '','' then
                  map_option (\<lambda>(kvs, r''). ((k, v) # kvs, r'')) (parse_props n (drop 1 r'))
                else if take 1 r' = ''}'' then Some ([(k, v)], drop 1 r')
                else None)))"

definition json_parse :: "string \<Rightarrow> error + jsval" where
  "json_parse s =
     (case parse_value (Suc (length s)) s of
        Some (v, []) \<Rightarrow> Inr v
      | _ \<Rightarrow> Inl (SyntaxError s))"

text \<open>
  A process without the cache, with every backend in working order, and where the
  replacer and the reviver of the protocol library have nothing to do (the values of the
  examples hold no binary field).
\<close>

definition example_env :: env where
  "example_env =
     \<lparr>INSTANCE_DIR = ''instances'',
      CACHE_REDIS_ENABLED = None,
      JSON_stringify = json_print,
      JSON_stringify_replacer = json_print,
      JSON_parse = json_parse,
      JSON_parse_reviver = json_parse,
      initAuthCreds = JObj [(''registrationId'', JNum 7)],
      fromObject = Inr,
      faults = (\<lambda>op. None)\<rparr>"

text \<open>The stores before anything was written.\<close>

definition empty_world :: world where
  "empty_world =
     \<lparr>session = [], redis = (\<lambda>f. None), files = (\<lambda>p. None), dirs = {}, console = []\<rparr>"

text \<open>The rows of the relational table that belong to a session identifier.\<close>

definition records :: "world \<Rightarrow> string \<Rightarrow> session_data list" where
  "records w sid = filter (\<lambda>r. sessionId r = sid) (session w)"

text \<open>The example process with a database that refuses the lookup of session \<open>s1\<close>.\<close>

definition database_down :: env where
  "database_down =
     example_env\<lparr>faults :=
       (\<lambda>op. if op = FindUnique ''s1'' then Some (BackendError ''connection refused'') else None)\<rparr>"

text \<open>The example process with the cache switched on.\<close>

definition cache_env :: env where
  "cache_env = example_env\<lparr>CACHE_REDIS_ENABLED := Some ''true''\<rparr>"

text \<open>A cache that holds the pre-key \<open>3\<close> of session \<open>s1\<close>.\<close>

definition cached_world :: world where
  "cached_world =
     empty_world\<lparr>redis := (\<lambda>f. None)((''s1'', ''pre-key-3'') \<mapsto> JObj [(''public'', JStr ''AQ=='')])\<rparr>"

text \<open>
  What a read of an entry comes to: the value of the \<open>try\<close> block of \<open>readData\<close>, or
  \<open>null\<close> when the block throws.
\<close>

definition read_or_null :: "env \<Rightarrow> string \<Rightarrow> string \<Rightarrow> world \<Rightarrow> jsval" where
  "read_or_null E sid key w =
     (case fst (readData_try E sid key w) of Inl e \<Rightarrow> JNull | Inr v \<Rightarrow> v)"

text \<open>
  The value that \<open>state.keys.get\<close> binds to an id: what the read of \<open>type-id\<close> comes to,
  passed through \<open>fromObject\<close> when the type is \<open>app-state-sync-key\<close> and the value is truthy.
\<close>

definition yields :: "env \<Rightarrow> string \<Rightarrow> string \<Rightarrow> world \<Rightarrow> string \<Rightarrow> jsval \<Rightarrow> bool" where
  "yields E sid type w i v \<longleftrightarrow>
     (let r = read_or_null E sid (type @ ''-'' @ i) w in
      if type = ''app-state-sync-key'' \<and> truthy r then fromObject E r = Inr v else v = r)"


text \<open>
  The example process with a \<open>fromObject\<close> that, as the one the protocol library generates
  for its sync key data, throws a \<open>TypeError\<close> when the field \<open>fingerprint\<close> of the value is
  set and is not an object; and the files of session \<open>s1\<close> with three sync keys: \<open>1\<close> as it
  was written, \<open>2\<close> damaged, and \<open>4\<close> with a number for its fingerprint.
\<close>

definition strict_env :: env where
  "strict_env =
     example_env\<lparr>fromObject :=
       (\<lambda>v. case v of
               JObj kvs \<Rightarrow>
                 (case map_of kvs ''fingerprint'' of
                    None \<Rightarrow> Inr v
                  | Some f \<Rightarrow>
                      if f = JNull \<or> f = JUndefined \<or> is_object f then Inr v
                      else Inl (TypeError ''fingerprint: object expected''))
             | _ \<Rightarrow> Inr v)\<rparr>"

definition sync_world :: world where
  "sync_world =
     empty_world\<lparr>files :=
       (\<lambda>p. None)
         (''instances/s1/app-state-sync-key-1.json'' \<mapsto> json_print (JObj [(''keyData'', JStr ''AQ=='')]),
          ''instances/s1/app-state-sync-key-2.json'' \<mapsto> ''{broken'',
          ''instances/s1/app-state-sync-key-4.json'' \<mapsto> json_print (JObj [(''fingerprint'', JNum 5)]))\<rparr>"

section \<open>Properties\<close>

subsection \<open>File names\<close>

lemma replace_all_append:
  "replace_all c r (xs @ ys) = replace_all c r xs @ replace_all c r ys"
  by (induction xs) simp_all

lemma two_passes_Cons:
  "replace_all CHR '':'' ''-'' (replace_all CHR ''/'' ''__'' (x # xs)) =
     rewrite x @ replace_all CHR '':'' ''-'' (replace_all CHR ''/'' ''__'' xs)"
  by (simp add: rewrite_def replace_all_append)

lemma two_passes_Nil:
  "replace_all CHR '':'' ''-'' (replace_all CHR ''/'' ''__'' []) = []"
  by simp

lemma two_passes_eq_differ:
  "replace_all CHR '':'' ''-'' (replace_all CHR ''/'' ''__'' x) =
     replace_all CHR '':'' ''-'' (replace_all CHR ''/'' ''__'' y) \<Longrightarrow>
   x \<noteq> y \<Longrightarrow> differ_confusably x y"
proof (induction x arbitrary: y)
  case Nil
  then show ?case
    by (cases y) (auto simp: two_passes_Nil two_passes_Cons rewrite_def simp del: replace_all.simps
      split: if_splits)
next
  case (Cons a x)
  show ?case
  proof (cases y)
    case Nil
    with Cons.prems show ?thesis
      by (auto simp: two_passes_Nil two_passes_Cons rewrite_def simp del: replace_all.simps
        split: if_splits)
  next
    case (Cons b y')
    show ?thesis
    proof (cases "a = b")
      case True
      with Cons.prems Cons
      have "replace_all CHR '':'' ''-'' (replace_all CHR ''/'' ''__'' x) =
              replace_all CHR '':'' ''-'' (replace_all CHR ''/'' ''__'' y')"
        and "x \<noteq> y'"
        by (simp_all add: two_passes_Cons del: replace_all.simps)
      then have "differ_confusably x y'"
        by (rule Cons.IH)
      then show ?thesis
        using Cons True by simp
    next
      case False
      with Cons.prems(1) Cons show ?thesis
        by (auto simp: two_passes_Nil two_passes_Cons rewrite_def simp del: replace_all.simps
          split: if_splits)
    qed
  qed
qed

text \<open>
  C2, as stated, fails: the two keyed-entry names \<open>pre-key-a:b\<close> and \<open>pre-key-a-b\<close>
  (category \<open>pre-key\<close>, ids \<open>a:b\<close> and \<open>a-b\<close>) are distinct and get the same file name.
\<close>

theorem fixFileName_collision:
  "''pre-key-a:b'' \<noteq> ''pre-key-a-b'' \<and>
   fixFileName ''pre-key-a:b'' = fixFileName ''pre-key-a-b''"
  by (simp add: fixFileName_def)

text \<open>The same happens with a slash against two underscores.\<close>

lemma fixFileName_slash_collision:
  "''app-state-sync-key-a/b'' \<noteq> ''app-state-sync-key-a__b'' \<and>
   fixFileName ''app-state-sync-key-a/b'' = fixFileName ''app-state-sync-key-a__b''"
  by (simp add: fixFileName_def)

text \<open>
  C2, amended: two distinct names get distinct file names unless, at the first position
  where they differ, one has a slash and the other an underscore, or one has a colon and
  the other a dash. Colons, slashes, dashes and underscores anywhere else in the names
  do no harm: the sender keys of two devices, which are full of colons and differ in a
  digit, keep distinct file names.
\<close>

theorem fixFileName_injective_unless_first_difference_confusable:
  "x \<noteq> y \<Longrightarrow> \<not> differ_confusably x y \<Longrightarrow> fixFileName x \<noteq> fixFileName y"
  using two_passes_eq_differ [of x y]
  by (auto simp: fixFileName_def split: if_splits)

theorem fixFileName_injective_unless_first_difference_confusable_witness:
  "''sender-key-g@g.us::1::0'' \<noteq> ''sender-key-g@g.us::2::0'' \<and>
   \<not> differ_confusably ''sender-key-g@g.us::1::0'' ''sender-key-g@g.us::2::0'' \<and>
   fixFileName ''sender-key-g@g.us::1::0'' \<noteq> fixFileName ''sender-key-g@g.us::2::0''"
  using fixFileName_injective_unless_first_difference_confusable
          [of "''sender-key-g@g.us::1::0''" "''sender-key-g@g.us::2::0''"]
  by simp

text \<open>
  In particular, under one category the names of two distinct ids without dash and
  underscore never collide, whatever slashes and colons the ids hold.
\<close>

lemma differ_confusably_append: "differ_confusably (p @ x) (p @ y) = differ_confusably x y"
  by (induction p) simp_all

lemma differ_confusably_keyed:
  "differ_confusably (category @ ''-'' @ i) (category @ ''-'' @ j) = differ_confusably i j"
  using differ_confusably_append [of "category @ ''-''" i j] by simp

lemma differ_confusably_chars:
  "differ_confusably x y \<Longrightarrow>
   CHR ''_'' \<in> set x \<union> set y \<or> CHR ''-'' \<in> set x \<union> set y"
  by (induction x y rule: differ_confusably.induct) (auto split: if_splits)

lemma fixFileName_injective_on_plain_ids:
  assumes "i \<noteq> j"
    and "CHR ''_'' \<notin> set i \<union> set j" and "CHR ''-'' \<notin> set i \<union> set j"
  shows "fixFileName (category @ ''-'' @ i) \<noteq> fixFileName (category @ ''-'' @ j)"
proof -
  have "\<not> differ_confusably i j"
    using assms(2,3) differ_confusably_chars by blast
  then have "\<not> differ_confusably (category @ ''-'' @ i) (category @ ''-'' @ j)"
    by (metis differ_confusably_keyed)
  moreover have "category @ ''-'' @ i \<noteq> category @ ''-'' @ j"
    using assms(1) by simp
  ultimately show ?thesis
    using two_passes_eq_differ [of "category @ ''-'' @ i" "category @ ''-'' @ j"]
    by (auto simp: fixFileName_def split: if_splits)
qed

subsection \<open>The credentials record\<close>

lemmas promise_defs = resolve_def reject_def await_def try_catch_def returned_def console_error_def backend_def

lemma find_filter: "(find P xs = None) = (filter P xs = [])"
  by (induction xs) simp_all

lemma keyExists_fault:
  "faults E (FindUnique sid) = Some e \<Longrightarrow>
   keyExists E sid w =
     (Inr False, w\<lparr>console := console w @ [''Error checking key existence for session '' @ sid @ '':'']\<rparr>)"
  by (simp add: keyExists_def prisma_findUnique_def promise_defs)

lemma keyExists_ok:
  "faults E (FindUnique sid) = None \<Longrightarrow> keyExists E sid w = (Inr (records w sid \<noteq> []), w)"
  by (simp add: keyExists_def prisma_findUnique_def promise_defs records_def find_filter [symmetric])

lemma getAuthKey_fault:
  "faults E (FindUnique sid) = Some e \<Longrightarrow>
   getAuthKey E sid w =
     (Inr JNull, w\<lparr>console := console w @ [''Error getting auth key for session '' @ sid @ '':'']\<rparr>)"
  by (simp add: getAuthKey_def prisma_findUnique_def promise_defs)

lemma getAuthKey_ok:
  "faults E (FindUnique sid) = None \<Longrightarrow>
   getAuthKey E sid w =
     (case find (\<lambda>r. sessionId r = sid) (session w) of
        None \<Rightarrow> (Inr JNull, w)
      | Some row \<Rightarrow>
          (case JSON_parse E (creds row) of
             Inr v \<Rightarrow> (Inr v, w)
           | Inl e \<Rightarrow>
               (Inr JNull,
                w\<lparr>console := console w @ [''Error getting auth key for session '' @ sid @ '':'']\<rparr>)))"
  by (simp add: getAuthKey_def prisma_findUnique_def promise_defs split: option.split sum.split)

lemma keyExists_resolves: "\<exists>b w'. keyExists E sid w = (Inr b, w')"
  by (cases "faults E (FindUnique sid)") (auto simp: keyExists_fault keyExists_ok)

lemma getAuthKey_resolves: "\<exists>v w'. getAuthKey E sid w = (Inr v, w')"
  by (cases "faults E (FindUnique sid)")
     (simp_all add: getAuthKey_fault getAuthKey_ok split: option.split sum.split)

text \<open>
  C6: the existence check and the load of the credentials never reject, whatever the
  stores hold and whichever backend calls fail. When the lookup in the relational store
  throws, \<open>keyExists\<close> resolves to \<open>false\<close> and \<open>getAuthKey\<close> to \<open>null\<close>, and all that
  remains of the error is one line on the console.
\<close>

theorem credential_lookup_swallows_errors:
  "(\<exists>b w'. keyExists E sid w = (Inr b, w')) \<and>
   (\<exists>v w'. getAuthKey E sid w = (Inr v, w')) \<and>
   (faults E (FindUnique sid) = Some e \<longrightarrow>
      keyExists E sid w =
        (Inr False, w\<lparr>console := console w @ [''Error checking key existence for session '' @ sid @ '':'']\<rparr>) \<and>
      getAuthKey E sid w =
        (Inr JNull, w\<lparr>console := console w @ [''Error getting auth key for session '' @ sid @ '':'']\<rparr>))"
  using keyExists_resolves [of E sid w] getAuthKey_resolves [of E sid w]
  by (simp add: keyExists_fault getAuthKey_fault)


theorem credential_lookup_swallows_errors_witness:
  "faults database_down (FindUnique ''s1'') = Some (BackendError ''connection refused'') \<and>
   keyExists database_down ''s1'' empty_world =
     (Inr False, empty_world\<lparr>console := [''Error checking key existence for session s1:'']\<rparr>) \<and>
   getAuthKey database_down ''s1'' empty_world =
     (Inr JNull, empty_world\<lparr>console := [''Error getting auth key for session s1:'']\<rparr>)"
  using credential_lookup_swallows_errors
          [of database_down "''s1''" empty_world "BackendError ''connection refused''"]
  by (simp add: database_down_def example_env_def empty_world_def)

lemma saveKey_session:
  "session (snd (saveKey E sid k w)) = session w \<or>
   (sid \<notin> sessionId ` set (session w) \<and>
    session (snd (saveKey E sid k w)) = session w @ [\<lparr>sessionId = sid, creds = JSON_stringify E k\<rparr>]) \<or>
   session (snd (saveKey E sid k w)) =
     map (\<lambda>r. if sessionId r = sid then r\<lparr>creds := JSON_stringify E k\<rparr> else r) (session w)"
  by (cases "faults E (FindUnique sid)"; cases "faults E (Create sid)"; cases "faults E (Update sid)")
     (simp_all add: saveKey_def keyExists_fault keyExists_ok prisma_create_def prisma_update_def
        promise_defs Let_def)

lemma records_map_creds:
  "filter (\<lambda>r. sessionId r = s) (map (\<lambda>r. if sessionId r = sid then r\<lparr>creds := c\<rparr> else r) rs) =
   map (\<lambda>r. if sessionId r = sid then r\<lparr>creds := c\<rparr> else r) (filter (\<lambda>r. sessionId r = s) rs)"
  by (induction rs) simp_all

lemma saveKey_at_most_one:
  "length (records w s) \<le> 1 \<Longrightarrow> length (records (snd (saveKey E sid k w)) s) \<le> 1"
  using saveKey_session [of E sid k w]
  by (auto simp: records_def records_map_creds filter_empty_conv image_iff)

lemma saveKeys_at_most_one:
  "length (records w s) \<le> 1 \<Longrightarrow>
   length (records (fold (\<lambda>(sid, k) w. snd (saveKey E sid k w)) calls w) s) \<le> 1"
proof (induction calls arbitrary: w)
  case Nil
  then show ?case by simp
next
  case (Cons c calls)
  obtain sid k where c: "c = (sid, k)"
    by (cases c)
  from Cons.prems have "length (records (snd (saveKey E sid k w)) s) \<le> 1"
    by (rule saveKey_at_most_one)
  then have "length (records (fold (\<lambda>(sid, k) w. snd (saveKey E sid k w)) calls
      (snd (saveKey E sid k w))) s) \<le> 1"
    by (rule Cons.IH)
  then show ?case
    by (simp add: c)
qed

lemma saveKey_creates:
  "faults E (FindUnique sid) = None \<Longrightarrow> faults E (Create sid) = None \<Longrightarrow> records w sid = [] \<Longrightarrow>
   saveKey E sid k w =
     (Inr (Some \<lparr>sessionId = sid, creds = JSON_stringify E k\<rparr>),
      w\<lparr>session := session w @ [\<lparr>sessionId = sid, creds = JSON_stringify E k\<rparr>]\<rparr>)"
  by (auto simp: saveKey_def keyExists_ok prisma_create_def promise_defs Let_def records_def
        filter_empty_conv)

lemma saveKey_updates:
  "faults E (FindUnique sid) = None \<Longrightarrow> faults E (Update sid) = None \<Longrightarrow> records w sid \<noteq> [] \<Longrightarrow>
   saveKey E sid k w =
     (Inr (Some \<lparr>sessionId = sid, creds = JSON_stringify E k\<rparr>),
      w\<lparr>session := map (\<lambda>r. if sessionId r = sid then r\<lparr>creds := JSON_stringify E k\<rparr> else r) (session w)\<rparr>)"
  by (auto simp: saveKey_def keyExists_ok prisma_update_def promise_defs Let_def records_def
        filter_empty_conv)

text \<open>
  C7: \<open>saveKey\<close> creates or updates. A session identifier with at most one row keeps
  at most one row through any sequence of \<open>saveKey\<close> calls, for any identifiers and
  values and whichever backend calls fail. With the relational store answering, two
  calls for an identifier that has no row leave exactly one row after the first call,
  holding the first value, and exactly one after the second, holding the second value.
\<close>

theorem saveKey_create_or_update:
  "(length (records w s) \<le> 1 \<longrightarrow>
      length (records (fold (\<lambda>(sid, k) w. snd (saveKey E sid k w)) calls w) s) \<le> 1) \<and>
   (faults E (FindUnique sid) = None \<and> faults E (Create sid) = None \<and> faults E (Update sid) = None \<and>
    records w sid = [] \<longrightarrow>
      records (snd (saveKey E sid k1 w)) sid = [\<lparr>sessionId = sid, creds = JSON_stringify E k1\<rparr>] \<and>
      records (snd (saveKey E sid k2 (snd (saveKey E sid k1 w)))) sid =
        [\<lparr>sessionId = sid, creds = JSON_stringify E k2\<rparr>])"
proof (intro conjI impI)
  assume "length (records w s) \<le> 1"
  then show "length (records (fold (\<lambda>(sid, k) w. snd (saveKey E sid k w)) calls w) s) \<le> 1"
    by (rule saveKeys_at_most_one)
next
  assume h: "faults E (FindUnique sid) = None \<and> faults E (Create sid) = None \<and>
    faults E (Update sid) = None \<and> records w sid = []"
  then show first: "records (snd (saveKey E sid k1 w)) sid = [\<lparr>sessionId = sid, creds = JSON_stringify E k1\<rparr>]"
    by (simp add: saveKey_creates) (simp add: records_def)
  then have "records (snd (saveKey E sid k1 w)) sid \<noteq> []"
    by simp
  with h have "snd (saveKey E sid k2 (snd (saveKey E sid k1 w))) =
      (snd (saveKey E sid k1 w))\<lparr>session :=
         map (\<lambda>r. if sessionId r = sid then r\<lparr>creds := JSON_stringify E k2\<rparr> else r)
           (session (snd (saveKey E sid k1 w)))\<rparr>"
    by (simp add: saveKey_updates)
  then have "records (snd (saveKey E sid k2 (snd (saveKey E sid k1 w)))) sid =
      map (\<lambda>r. if sessionId r = sid then r\<lparr>creds := JSON_stringify E k2\<rparr> else r)
        (records (snd (saveKey E sid k1 w)) sid)"
    by (simp add: records_def records_map_creds)
  with first show "records (snd (saveKey E sid k2 (snd (saveKey E sid k1 w)))) sid =
        [\<lparr>sessionId = sid, creds = JSON_stringify E k2\<rparr>]"
    by simp
qed

theorem saveKey_create_or_update_witness:
  "length (records empty_world ''s1'') \<le> 1 \<and>
   length (records (fold (\<lambda>(sid, k) w. snd (saveKey example_env sid k w))
      [(''s1'', JStr ''a''), (''s2'', JStr ''b''), (''s1'', JStr ''c'')] empty_world) ''s1'') \<le> 1 \<and>
   faults example_env (FindUnique ''s1'') = None \<and> faults example_env (Create ''s1'') = None \<and>
   faults example_env (Update ''s1'') = None \<and> records empty_world ''s1'' = [] \<and>
   records (snd (saveKey example_env ''s1'' (JStr ''a'') empty_world)) ''s1'' =
     [\<lparr>sessionId = ''s1'', creds = JSON_stringify example_env (JStr ''a'')\<rparr>] \<and>
   records (snd (saveKey example_env ''s1'' (JStr ''c'')
       (snd (saveKey example_env ''s1'' (JStr ''a'') empty_world)))) ''s1'' =
     [\<lparr>sessionId = ''s1'', creds = JSON_stringify example_env (JStr ''c'')\<rparr>]"
  using saveKey_create_or_update
          [of empty_world "''s1''" example_env
              "[(''s1'', JStr ''a''), (''s2'', JStr ''b''), (''s1'', JStr ''c'')]"
              "''s1''" "JStr ''a''" "JStr ''c''"]
  by (simp add: example_env_def empty_world_def records_def)

subsection \<open>Removing a keyed entry\<close>

lemma keyed_not_creds: "category @ ''-'' @ i \<noteq> ''creds''"
proof
  assume "category @ ''-'' @ i = ''creds''"
  then have "CHR ''-'' \<in> set ''creds''"
    by (metis in_set_conv_decomp append_Cons)
  then show False
    by simp
qed


lemma keyed_not_creds' [simp]: "category @ CHR ''-'' # i \<noteq> ''creds''"
  using keyed_not_creds [of category i] by simp

lemma removeData_cache:
  "isRedisEnabled E \<Longrightarrow> key \<noteq> ''creds'' \<Longrightarrow>
   removeData E sid key w =
     (case hDelete E sid key w of
        (Inl e, w') \<Rightarrow> (Inl e, w'\<lparr>console := console w' @ [''Error removing data for key '' @ key @ '':'']\<rparr>)
      | (Inr deleted, w') \<Rightarrow>
          if deleted then (Inr (JBool True), w')
          else (Inl (Error (''Failed to delete key '' @ key @ '' from Redis'')),
                w'\<lparr>console := console w' @ [''Error removing data for key '' @ key @ '':'']\<rparr>))"
  by (simp add: removeData_def promise_defs split: prod.split sum.split)

text \<open>
  C5: in cache mode, for the keyed entry of any category and id, a \<open>hDelete\<close> that
  reports \<open>false\<close> makes \<open>removeData\<close> reject with the error that the function itself
  throws, and \<open>removeData\<close> resolves only when \<open>hDelete\<close> reported \<open>true\<close>.
\<close>

theorem removeData_cache_false_is_error:
  "isRedisEnabled E \<Longrightarrow>
   (fst (hDelete E sid (category @ ''-'' @ i) w) = Inr False \<longrightarrow>
      fst (removeData E sid (category @ ''-'' @ i) w) =
        Inl (Error (''Failed to delete key '' @ category @ ''-'' @ i @ '' from Redis''))) \<and>
   ((\<exists>v. fst (removeData E sid (category @ ''-'' @ i) w) = Inr v) \<longrightarrow>
      fst (hDelete E sid (category @ ''-'' @ i) w) = Inr True)"
proof -
  assume redis: "isRedisEnabled E"
  obtain r w' where h: "hDelete E sid (category @ ''-'' @ i) w = (r, w')"
    by (cases "hDelete E sid (category @ ''-'' @ i) w")
  show ?thesis
  proof (cases r)
    case (Inl e)
    with redis h show ?thesis
      by (simp add: removeData_cache keyed_not_creds)
  next
    case (Inr deleted)
    with redis h show ?thesis
      by (cases deleted) (simp_all add: removeData_cache keyed_not_creds)
  qed
qed


theorem removeData_cache_false_is_error_witness:
  "isRedisEnabled cache_env \<and>
   fst (hDelete cache_env ''s1'' (''pre-key'' @ ''-'' @ ''3'') empty_world) = Inr False \<and>
   fst (removeData cache_env ''s1'' (''pre-key'' @ ''-'' @ ''3'') empty_world) =
     Inl (Error ''Failed to delete key pre-key-3 from Redis'') \<and>
   (\<exists>v. fst (removeData cache_env ''s1'' (''pre-key'' @ ''-'' @ ''3'') cached_world) = Inr v) \<and>
   fst (hDelete cache_env ''s1'' (''pre-key'' @ ''-'' @ ''3'') cached_world) = Inr True"
proof -
  have on: "isRedisEnabled cache_env"
    by (simp add: isRedisEnabled_def cache_env_def example_env_def)
  have absent: "fst (hDelete cache_env ''s1'' (''pre-key'' @ ''-'' @ ''3'') empty_world) = Inr False"
    by (simp add: hDelete_def backend_def cache_env_def example_env_def empty_world_def)
  have present: "\<exists>v. fst (removeData cache_env ''s1'' (''pre-key'' @ ''-'' @ ''3'') cached_world) = Inr v"
    by (simp add: removeData_def hDelete_def promise_defs isRedisEnabled_def cache_env_def
          example_env_def cached_world_def empty_world_def)
  from on absent present
    removeData_cache_false_is_error [OF on, of "''s1''" "''pre-key''" "''3''" empty_world]
    removeData_cache_false_is_error [OF on, of "''s1''" "''pre-key''" "''3''" cached_world]
  show ?thesis
    by simp
qed

lemma fileExists_eq:
  "fileExists E p w = (Inr (faults E (Stat p) = None \<and> files w p \<noteq> None), w)"
  by (cases "faults E (Stat p)") (auto simp: fileExists_def fs_stat_isFile_def promise_defs)

lemma readData_fs_missing:
  "\<not> isRedisEnabled E \<Longrightarrow> key \<noteq> ''creds'' \<Longrightarrow> files w (localFile E sid key) = None \<Longrightarrow>
   readData E sid key w = (Inr JNull, w)"
  by (simp add: readData_def readData_try_def try_catch_def await_def fileExists_eq resolve_def)

lemma removeData_fs_missing:
  "\<not> isRedisEnabled E \<Longrightarrow> key \<noteq> ''creds'' \<Longrightarrow> files w (localFile E sid key) = None \<Longrightarrow>
   removeData E sid key w =
     (Inl (case faults E (Unlink (localFile E sid key)) of
             Some e \<Rightarrow> e
           | None \<Rightarrow> ENOENT (localFile E sid key)),
      w\<lparr>console := console w @ [''Error removing data for key '' @ key @ '':'']\<rparr>)"
  by (cases "faults E (Unlink (localFile E sid key))")
     (simp_all add: removeData_def fs_unlink_def promise_defs)

text \<open>What a task of the bulk write can do to a file that is not there.\<close>

lemma removeData_keeps_missing:
  "files w p = None \<Longrightarrow> files (snd (removeData E sid key w)) p = None"
  by (cases "faults E (Delete sid)"; cases "faults E (HDelete sid key)";
      cases "faults E (Unlink (localFile E sid key))"; cases "files w (localFile E sid key)";
      cases "find (\<lambda>r. sessionId r = sid) (session w)")
     (auto simp: removeData_def deleteAuthKey_def prisma_delete_def hDelete_def fs_unlink_def
        promise_defs)

lemma writeData_keeps_missing:
  "files w p = None \<Longrightarrow> key \<noteq> ''creds'' \<Longrightarrow> localFile E sid key \<noteq> p \<Longrightarrow>
   files (snd (writeData E sid v key w)) p = None"
  by (cases "faults E (HSet sid key)"; cases "faults E (WriteFile (localFile E sid key))")
     (simp_all add: writeData_def hSet_def fs_writeFile_def promise_defs Let_def)


lemma promise_all_rejects:
  assumes inv: "\<And>t w. t \<in> set ts \<Longrightarrow> P w \<Longrightarrow> P (snd (t w))"
    and fail: "\<And>w. P w \<Longrightarrow> isl (fst (t0 w))"
    and t0: "t0 \<in> set ts"
    and w: "P w"
  shows "isl (fst (promise_all ts w))"
  using inv t0 w
proof (induction ts arbitrary: w)
  case Nil
  then show ?case by simp
next
  case (Cons t ts)
  obtain r w1 where t: "t w = (r, w1)"
    by (cases "t w")
  obtain rs w2 where rest: "promise_all ts w1 = (rs, w2)"
    by (cases "promise_all ts w1")
  have w1: "P w1"
    using Cons.prems(1) [of t w] Cons.prems(3) t by simp
  show ?case
  proof (cases "t0 = t")
    case True
    with fail [OF Cons.prems(3)] t have "isl r"
      by simp
    then show ?thesis
      by (cases r) (simp_all add: t rest)
  next
    case False
    with Cons.prems(2) have "t0 \<in> set ts"
      by simp
    with Cons.IH [of w1] Cons.prems(1) w1 have "isl (fst (promise_all ts w1))"
      by simp
    then show ?thesis
      by (cases r; cases rs) (simp_all add: t rest)
  qed
qed

lemma set_tasks_mem:
  "t \<in> set (set_tasks E sid data) \<longleftrightarrow>
   (\<exists>category entries i v.
      (category, entries) \<in> set data \<and> (i, v) \<in> set entries \<and> t = set_task E sid category i v)"
  by (fastforce simp: set_tasks_def)

lemma keys_set_rejects:
  "isl (fst (promise_all (set_tasks E sid data) w)) \<Longrightarrow> \<exists>e w'. keys_set E sid data w = (Inl e, w')"
  by (cases "promise_all (set_tasks E sid data) w"; cases "fst (promise_all (set_tasks E sid data) w)")
     (simp_all add: keys_set_def await_def)

text \<open>
  C4: in filesystem mode, for the keyed entry of any category and id whose file does
  not exist, \<open>removeData\<close> rejects (with the file-not-found error of \<open>unlink\<close>, unless the
  call fails for another reason first) after one line on the console, while \<open>readData\<close>
  of the same entry resolves to \<open>null\<close>. A bulk \<open>set\<close> that holds a \<open>null\<close> (or \<open>undefined\<close>)
  value for such an entry rejects, provided no entry of the same call is written to that
  very file before (the tasks of one call run in the order of the argument).
\<close>

theorem remove_of_missing_file_rejects:
  "\<not> isRedisEnabled E \<Longrightarrow> files w (localFile E sid (category @ ''-'' @ i)) = None \<Longrightarrow>
   removeData E sid (category @ ''-'' @ i) w =
     (Inl (case faults E (Unlink (localFile E sid (category @ ''-'' @ i))) of
             Some e \<Rightarrow> e
           | None \<Rightarrow> ENOENT (localFile E sid (category @ ''-'' @ i))),
      w\<lparr>console := console w @ [''Error removing data for key '' @ category @ ''-'' @ i @ '':'']\<rparr>) \<and>
   readData E sid (category @ ''-'' @ i) w = (Inr JNull, w) \<and>
   ((category, entries) \<in> set data \<and> (i, value) \<in> set entries \<and>
    (value = JNull \<or> value = JUndefined) \<and>
    (\<forall>(c, es) \<in> set data. \<forall>(j, v) \<in> set es.
       truthy v \<longrightarrow> localFile E sid (c @ ''-'' @ j) \<noteq> localFile E sid (category @ ''-'' @ i)) \<longrightarrow>
    (\<exists>e w'. keys_set E sid data w = (Inl e, w')))"
proof (intro conjI impI)
  assume fs: "\<not> isRedisEnabled E"
    and missing: "files w (localFile E sid (category @ ''-'' @ i)) = None"
  let ?p = "localFile E sid (category @ ''-'' @ i)"
  from fs missing show "removeData E sid (category @ ''-'' @ i) w =
     (Inl (case faults E (Unlink (localFile E sid (category @ ''-'' @ i))) of
             Some e \<Rightarrow> e
           | None \<Rightarrow> ENOENT (localFile E sid (category @ ''-'' @ i))),
      w\<lparr>console := console w @ [''Error removing data for key '' @ category @ ''-'' @ i @ '':'']\<rparr>)"
    using removeData_fs_missing [of E "category @ ''-'' @ i" w sid] by simp
  from fs missing show "readData E sid (category @ ''-'' @ i) w = (Inr JNull, w)"
    using readData_fs_missing [of E "category @ ''-'' @ i" w sid] by simp
  assume h: "(category, entries) \<in> set data \<and> (i, value) \<in> set entries \<and>
    (value = JNull \<or> value = JUndefined) \<and>
    (\<forall>(c, es) \<in> set data. \<forall>(j, v) \<in> set es.
       truthy v \<longrightarrow> localFile E sid (c @ ''-'' @ j) \<noteq> localFile E sid (category @ ''-'' @ i))"
  have inv: "files (snd (t w')) ?p = None"
    if "t \<in> set (set_tasks E sid data)" and "files w' ?p = None" for t w'
  proof -
    from that(1) obtain c es j v where mem: "(c, es) \<in> set data" "(j, v) \<in> set es"
      and t: "t = set_task E sid c j v"
      by (auto simp: set_tasks_mem)
    show ?thesis
    proof (cases "truthy v")
      case True
      with h mem have "localFile E sid (c @ ''-'' @ j) \<noteq> ?p"
        by fastforce
      with True that(2) show ?thesis
        using writeData_keeps_missing [of w' ?p "c @ ''-'' @ j" E sid v]
        by (simp add: t set_task_def)
    next
      case False
      with that(2) show ?thesis
        by (simp add: t set_task_def removeData_keeps_missing)
    qed
  qed
  have fail: "isl (fst (set_task E sid category i value w'))" if "files w' ?p = None" for w'
    using h fs that removeData_fs_missing [of E "category @ ''-'' @ i" w' sid]
    by (auto simp: set_task_def)
  have mem: "set_task E sid category i value \<in> set (set_tasks E sid data)"
    using h by (auto simp: set_tasks_mem)
  from inv fail mem missing have "isl (fst (promise_all (set_tasks E sid data) w))"
    by (rule promise_all_rejects [where P = "\<lambda>w. files w ?p = None"])
  then show "\<exists>e w'. keys_set E sid data w = (Inl e, w')"
    by (rule keys_set_rejects)
qed

theorem remove_of_missing_file_rejects_witness:
  "\<not> isRedisEnabled example_env \<and>
   files empty_world (localFile example_env ''s1'' (''pre-key'' @ ''-'' @ ''3'')) = None \<and>
   removeData example_env ''s1'' (''pre-key'' @ ''-'' @ ''3'') empty_world =
     (Inl (ENOENT ''instances/s1/pre-key-3.json''),
      empty_world\<lparr>console := [''Error removing data for key pre-key-3:'']\<rparr>) \<and>
   readData example_env ''s1'' (''pre-key'' @ ''-'' @ ''3'') empty_world = (Inr JNull, empty_world) \<and>
   (\<exists>e w'. keys_set example_env ''s1'' [(''pre-key'', [(''3'', JNull)])] empty_world = (Inl e, w'))"
proof -
  have off: "\<not> isRedisEnabled example_env"
    by (simp add: isRedisEnabled_def example_env_def)
  have missing: "files empty_world (localFile example_env ''s1'' (''pre-key'' @ ''-'' @ ''3'')) = None"
    by (simp add: empty_world_def)
  have path: "localFile example_env ''s1'' ''pre-key-3'' = ''instances/s1/pre-key-3.json''"
    by (simp add: localFile_def localFolder_def path_join_def fixFileName_def example_env_def)
  have working: "faults example_env (Unlink ''instances/s1/pre-key-3.json'') = None"
    by (simp add: example_env_def)
  from off missing
    remove_of_missing_file_rejects
      [OF off missing, of "[(''3'', JNull)]" "[(''pre-key'', [(''3'', JNull)])]" JNull]
  show ?thesis
    by (simp add: path working empty_world_def)
qed

subsection \<open>The bulk write\<close>

lemma is_object_truthy: "is_object v \<Longrightarrow> truthy v"
  by (cases v) simp_all










subsection \<open>The first initialisation of a session\<close>

lemma find_hd_filter: "find P xs = (case filter P xs of [] \<Rightarrow> None | r # _ \<Rightarrow> Some r)"
  by (induction xs) simp_all

lemma find_records:
  "find (\<lambda>r. sessionId r = sid) (session w) = (case records w sid of [] \<Rightarrow> None | r # _ \<Rightarrow> Some r)"
  by (simp add: records_def find_hd_filter)

lemma records_other_fields [simp]:
  "records (w\<lparr>dirs := d\<rparr>) sid = records w sid"
  "records (w\<lparr>console := c\<rparr>) sid = records w sid"
  "records (w\<lparr>files := f\<rparr>) sid = records w sid"
  "records (w\<lparr>redis := h\<rparr>) sid = records w sid"
  by (simp_all add: records_def)

lemma getAuthKey_no_record:
  "faults E (FindUnique sid) = None \<Longrightarrow> records w sid = [] \<Longrightarrow> getAuthKey E sid w = (Inr JNull, w)"
  by (simp add: getAuthKey_ok find_records)

lemma getAuthKey_one_record:
  "faults E (FindUnique sid) = None \<Longrightarrow> records w sid = [row] \<Longrightarrow>
   JSON_parse E (creds row) = Inr v \<Longrightarrow> getAuthKey E sid w = (Inr v, w)"
  by (simp add: getAuthKey_ok find_records)

lemma readData_creds: "readData E sid ''creds'' w = getAuthKey E sid w"
proof -
  obtain v w' where "getAuthKey E sid w = (Inr v, w')"
    using getAuthKey_resolves [of E sid w] by blast
  then show ?thesis
    by (simp add: readData_def readData_try_def try_catch_def)
qed

lemma writeData_creds_creates:
  "faults E (FindUnique sid) = None \<Longrightarrow> faults E (Create sid) = None \<Longrightarrow> records w sid = [] \<Longrightarrow>
   snd (writeData E sid v ''creds'' w) =
     w\<lparr>session := session w @ [\<lparr>sessionId = sid, creds = JSON_stringify E (JStr (JSON_stringify_replacer E v))\<rparr>]\<rparr> \<and>
   (\<exists>r. fst (writeData E sid v ''creds'' w) = Inr r)"
  by (simp add: writeData_def Let_def try_catch_def await_def resolve_def saveKey_creates)

text \<open>
  C1, what the code does: for a session identifier without a row, with the relational
  store and the directory creation in working order, the initialiser returns the
  credentials of \<open>initAuthCreds\<close> and inserts one row. \<open>writeData\<close> encodes the credentials
  with the replacer and \<open>saveKey\<close> encodes the resulting text once more, while
  \<open>getAuthKey\<close> decodes once and \<open>readData\<close> hands that on without the reviver. So, for
  JSON functions that give back a string they encoded, the load that follows returns
  the JSON text of the credentials, a string, and not a value equal to the credentials
  that were persisted.
\<close>

theorem fresh_session_load_returns_text:
  assumes dir: "faults E (Mkdir (localFolder E sid)) = None"
    and find: "faults E (FindUnique sid) = None"
    and create: "faults E (Create sid) = None"
    and fresh: "records w sid = []"
    and json: "JSON_parse E (JSON_stringify E (JStr (JSON_stringify_replacer E (initAuthCreds E)))) =
               Inr (JStr (JSON_stringify_replacer E (initAuthCreds E)))"
  shows "\<exists>w'. useMultiFileAuthStatePrisma E sid w = (Inr (initAuthCreds E), w') \<and>
     records w' sid =
       [\<lparr>sessionId = sid,
         creds = JSON_stringify E (JStr (JSON_stringify_replacer E (initAuthCreds E)))\<rparr>] \<and>
     getAuthKey E sid w' = (Inr (JStr (JSON_stringify_replacer E (initAuthCreds E))), w') \<and>
     readData E sid ''creds'' w' = (Inr (JStr (JSON_stringify_replacer E (initAuthCreds E))), w') \<and>
     (is_object (initAuthCreds E) \<longrightarrow> fst (readData E sid ''creds'' w') \<noteq> Inr (initAuthCreds E))"
proof -
  let ?w1 = "w\<lparr>dirs := insert (localFolder E sid) (dirs w)\<rparr>"
  let ?row = "\<lparr>sessionId = sid,
         creds = JSON_stringify E (JStr (JSON_stringify_replacer E (initAuthCreds E)))\<rparr>"
  let ?w2 = "?w1\<lparr>session := session ?w1 @ [?row]\<rparr>"
  have fresh1: "records ?w1 sid = []"
    using fresh by simp
  have load1: "readData E sid ''creds'' ?w1 = (Inr JNull, ?w1)"
    using getAuthKey_no_record [OF find fresh1] by (simp add: readData_creds)
  obtain r where writes: "writeData E sid (initAuthCreds E) ''creds'' ?w1 = (Inr r, ?w2)"
    using writeData_creds_creates [OF find create fresh1, of "initAuthCreds E"]
    by (cases "writeData E sid (initAuthCreds E) ''creds'' ?w1") auto
  have init: "useMultiFileAuthStatePrisma E sid w = (Inr (initAuthCreds E), ?w2)"
    using dir load1 writes
    by (simp add: useMultiFileAuthStatePrisma_def fs_mkdir_def backend_def await_def resolve_def Let_def)
  have rows: "records ?w2 sid = [?row]"
    using fresh by (simp add: records_def)
  have load2: "getAuthKey E sid ?w2 = (Inr (JStr (JSON_stringify_replacer E (initAuthCreds E))), ?w2)"
    using json by (intro getAuthKey_one_record [OF find rows]) simp
  have differ: "is_object (initAuthCreds E) \<longrightarrow>
      fst (readData E sid ''creds'' ?w2) \<noteq> Inr (initAuthCreds E)"
    using load2 by (cases "initAuthCreds E") (simp_all add: readData_creds)
  from init rows load2 differ show ?thesis
    by (simp add: readData_creds)
qed

lemma parse_chars_escape: "parse_chars (escape s @ CHR 0x22 # r) = Some (s, r)"
  by (induction s) simp_all

lemma json_parse_print_string: "json_parse (json_print (JStr s)) = Inr (JStr s)"
  by (simp add: json_parse_def quote_def parse_chars_escape)

theorem fresh_session_load_returns_text_witness:
  "faults example_env (Mkdir (localFolder example_env ''s1'')) = None \<and>
   faults example_env (FindUnique ''s1'') = None \<and>
   faults example_env (Create ''s1'') = None \<and>
   records empty_world ''s1'' = [] \<and>
   JSON_parse example_env (JSON_stringify example_env (JStr (JSON_stringify_replacer example_env (initAuthCreds example_env)))) =
     Inr (JStr (JSON_stringify_replacer example_env (initAuthCreds example_env))) \<and>
   is_object (initAuthCreds example_env) \<and>
   (\<exists>w'. useMultiFileAuthStatePrisma example_env ''s1'' empty_world = (Inr (JObj [(''registrationId'', JNum 7)]), w') \<and>
      readData example_env ''s1'' ''creds'' w' = (Inr (JStr (json_print (JObj [(''registrationId'', JNum 7)]))), w') \<and>
      fst (readData example_env ''s1'' ''creds'' w') \<noteq> Inr (JObj [(''registrationId'', JNum 7)]))"
proof -
  have dir: "faults example_env (Mkdir (localFolder example_env ''s1'')) = None"
    and find: "faults example_env (FindUnique ''s1'') = None"
    and create: "faults example_env (Create ''s1'') = None"
    by (simp_all add: example_env_def)
  have fresh: "records empty_world ''s1'' = []"
    by (simp add: records_def empty_world_def)
  have json: "JSON_parse example_env (JSON_stringify example_env
        (JStr (JSON_stringify_replacer example_env (initAuthCreds example_env)))) =
      Inr (JStr (JSON_stringify_replacer example_env (initAuthCreds example_env)))"
    using json_parse_print_string by (simp add: example_env_def)
  have obj: "is_object (initAuthCreds example_env)"
    and creds0: "initAuthCreds example_env = JObj [(''registrationId'', JNum 7)]"
    and printer: "JSON_stringify_replacer example_env = json_print"
    by (simp_all add: example_env_def)
  from fresh_session_load_returns_text [OF dir find create fresh json] obj
  have "\<exists>w'. useMultiFileAuthStatePrisma example_env ''s1'' empty_world = (Inr (JObj [(''registrationId'', JNum 7)]), w') \<and>
      readData example_env ''s1'' ''creds'' w' = (Inr (JStr (json_print (JObj [(''registrationId'', JNum 7)]))), w') \<and>
      fst (readData example_env ''s1'' ''creds'' w') \<noteq> Inr (JObj [(''registrationId'', JNum 7)])"
    unfolding creds0 printer by blast
  with dir find create fresh json obj show ?thesis
    by blast
qed

subsection \<open>The bulk read\<close>

lemma same_but_console [simp]: "\<exists>c'. w = w\<lparr>console := c'\<rparr>"
  by (rule exI [of _ "console w"]) simp

lemma getAuthKey_console:
  "fst (getAuthKey E sid (w\<lparr>console := c\<rparr>)) = fst (getAuthKey E sid w)"
  "\<exists>c'. snd (getAuthKey E sid w) = w\<lparr>console := c'\<rparr>"
proof -
  show "fst (getAuthKey E sid (w\<lparr>console := c\<rparr>)) = fst (getAuthKey E sid w)"
    by (cases "faults E (FindUnique sid)")
       (simp_all add: getAuthKey_fault getAuthKey_ok split: option.split sum.split)
  show "\<exists>c'. snd (getAuthKey E sid w) = w\<lparr>console := c'\<rparr>"
  proof (cases "faults E (FindUnique sid)")
    case None
    then show ?thesis
      by (auto simp: getAuthKey_ok split: option.split sum.split)
  next
    case (Some e)
    then show ?thesis
      by (auto simp: getAuthKey_fault)
  qed
qed

lemma readData_try_console:
  "fst (readData_try E sid key (w\<lparr>console := c\<rparr>)) = fst (readData_try E sid key w)"
  by (cases "faults E (HGet sid key)"; cases "faults E (ReadFile (localFile E sid key))")
     (simp_all add: readData_try_def getAuthKey_console fileExists_eq hGet_def fs_readFile_def
        promise_defs split: option.split)

lemma readData_try_world:
  "\<exists>c'. snd (readData_try E sid key w) = w\<lparr>console := c'\<rparr>"
proof -
  show ?thesis
  proof (cases "key = ''creds''")
    case True
    then show ?thesis
      by (simp add: readData_try_def getAuthKey_console)
  next
    case False
    then show ?thesis
      by (cases "faults E (HGet sid key)"; cases "faults E (ReadFile (localFile E sid key))")
         (auto simp: readData_try_def fileExists_eq hGet_def fs_readFile_def promise_defs
            split: option.split)
  qed
qed


lemma read_or_null_console [simp]:
  "read_or_null E sid key (w\<lparr>console := c\<rparr>) = read_or_null E sid key w"
  by (simp add: read_or_null_def readData_try_console)

lemma yields_console [simp]:
  "yields E sid type (w\<lparr>console := c\<rparr>) = yields E sid type w"
  by (intro ext) (simp add: yields_def)

lemma readData_resolves:
  "\<exists>c'. readData E sid key w = (Inr (read_or_null E sid key w), w\<lparr>console := c'\<rparr>)"
proof -
  obtain r w1 where tried: "readData_try E sid key w = (r, w1)"
    by (cases "readData_try E sid key w")
  obtain c1 where w1: "w1 = w\<lparr>console := c1\<rparr>"
    using readData_try_world [of E sid key w] tried by auto
  show ?thesis
    by (cases r) (auto simp: readData_def try_catch_def await_def console_error_def resolve_def
      read_or_null_def tried w1)
qed



lemma get_entry_world: "\<exists>c'. snd (get_entry E sid type i w) = w\<lparr>console := c'\<rparr>"
proof -
  obtain c' where "readData E sid (type @ ''-'' @ i) w =
      (Inr (read_or_null E sid (type @ ''-'' @ i) w), w\<lparr>console := c'\<rparr>)"
    using readData_resolves by blast
  then show ?thesis
    by (cases "fromObject E (read_or_null E sid (type @ ''-'' @ i) w)")
       (auto simp: get_entry_def await_def returned_def resolve_def)
qed

lemma get_entry_resolved:
  assumes "get_entry E sid type i w = (Inr (j, v), w1)"
  shows "j = i \<and> yields E sid type w i v"
proof -
  obtain c' where "readData E sid (type @ ''-'' @ i) w =
      (Inr (read_or_null E sid (type @ ''-'' @ i) w), w\<lparr>console := c'\<rparr>)"
    using readData_resolves by blast
  with assms show ?thesis
    by (cases "fromObject E (read_or_null E sid (type @ ''-'' @ i) w)")
       (auto simp: get_entry_def await_def returned_def resolve_def yields_def split: if_splits)
qed

lemma get_entries_resolved:
  "promise_all (map (get_entry E sid type) ids) w = (Inr bs, w') \<Longrightarrow>
   map fst bs = ids \<and> (\<forall>(i, v) \<in> set bs. yields E sid type w i v)"
proof (induction ids arbitrary: w bs)
  case Nil
  then show ?case
    by auto
next
  case (Cons i ids)
  obtain r w1 where first: "get_entry E sid type i w = (r, w1)"
    by (cases "get_entry E sid type i w")
  obtain c1 where w1: "w1 = w\<lparr>console := c1\<rparr>"
    using get_entry_world [of E sid type i w] first by auto
  obtain rs w2 where rest: "promise_all (map (get_entry E sid type) ids) w1 = (rs, w2)"
    by (cases "promise_all (map (get_entry E sid type) ids) w1")
  from Cons.prems first rest obtain j v bs' where r: "r = Inr (j, v)" and rs: "rs = Inr bs'"
    and bs: "bs = (j, v) # bs'"
    by (cases r; cases rs) auto
  from first r have head: "j = i \<and> yields E sid type w i v"
    using get_entry_resolved by blast
  from rest rs have "promise_all (map (get_entry E sid type) ids) w1 = (Inr bs', w2)"
    by simp
  then have "map fst bs' = ids \<and> (\<forall>(i, v) \<in> set bs'. yields E sid type w1 i v)"
    using Cons.IH Cons.prems first rest r rs by (auto split: prod.splits)
  with head bs w1 show ?case
    by simp
qed


lemma map_of_obj_assign:
  "map_of (obj_assign d k v) = (if k = ''__proto__'' then map_of d else (map_of d)(k \<mapsto> v))"
  by (simp add: obj_assign_def update_conv')



lemma map_of_assignments:
  "k \<noteq> ''__proto__'' \<Longrightarrow>
   map_of (foldl (\<lambda>data (k, v). obj_assign data k v) d bs) k =
     (case map_of (rev bs) k of None \<Rightarrow> map_of d k | Some v \<Rightarrow> Some v)"
proof (induction bs arbitrary: d)
  case Nil
  then show ?case by simp
next
  case (Cons b bs)
  obtain j v where b: "b = (j, v)"
    by (cases b)
  show ?case
    unfolding b using Cons.prems
    by (auto simp: Cons.IH map_of_obj_assign map_add_def split: option.splits)
qed


lemma get_entry_yields_when:
  assumes "type = ''app-state-sync-key'' \<longrightarrow> truthy (read_or_null E sid (type @ ''-'' @ i) w) \<longrightarrow>
    (\<exists>v. fromObject E (read_or_null E sid (type @ ''-'' @ i) w) = Inr v)"
  shows "\<exists>v c'. get_entry E sid type i w = (Inr (i, v), w\<lparr>console := c'\<rparr>) \<and> yields E sid type w i v"
proof -
  obtain c' where read: "readData E sid (type @ ''-'' @ i) w =
      (Inr (read_or_null E sid (type @ ''-'' @ i) w), w\<lparr>console := c'\<rparr>)"
    using readData_resolves by blast
  show ?thesis
  proof (cases "type = ''app-state-sync-key'' \<and> truthy (read_or_null E sid (type @ ''-'' @ i) w)")
    case True
    with assms obtain v' where "fromObject E (read_or_null E sid (type @ ''-'' @ i) w) = Inr v'"
      by blast
    with True read show ?thesis
      by (auto simp: get_entry_def await_def returned_def resolve_def yields_def)
  next
    case False
    with read show ?thesis
      by (auto simp: get_entry_def await_def returned_def resolve_def yields_def)
  qed
qed

lemma get_entries_yield_when:
  "\<forall>i \<in> set ids. type = ''app-state-sync-key'' \<longrightarrow>
      truthy (read_or_null E sid (type @ ''-'' @ i) w) \<longrightarrow>
      (\<exists>v. fromObject E (read_or_null E sid (type @ ''-'' @ i) w) = Inr v) \<Longrightarrow>
   \<exists>vals c'. promise_all (map (get_entry E sid type) ids) w =
            (Inr (zip ids vals), w\<lparr>console := c'\<rparr>) \<and>
          list_all2 (yields E sid type w) ids vals"
proof (induction ids arbitrary: w)
  case Nil
  then show ?case
    by simp
next
  case (Cons i ids)
  obtain v c1 where head: "get_entry E sid type i w = (Inr (i, v), w\<lparr>console := c1\<rparr>)"
    and v: "yields E sid type w i v"
    using get_entry_yields_when [of type E sid i w] Cons.prems by auto
  have "\<forall>i \<in> set ids. type = ''app-state-sync-key'' \<longrightarrow>
      truthy (read_or_null E sid (type @ ''-'' @ i) (w\<lparr>console := c1\<rparr>)) \<longrightarrow>
      (\<exists>v. fromObject E (read_or_null E sid (type @ ''-'' @ i) (w\<lparr>console := c1\<rparr>)) = Inr v)"
    using Cons.prems by simp
  then obtain vals c2 where rest: "promise_all (map (get_entry E sid type) ids) (w\<lparr>console := c1\<rparr>) =
      (Inr (zip ids vals), w\<lparr>console := c1\<rparr>\<lparr>console := c2\<rparr>)"
    and vs: "list_all2 (yields E sid type (w\<lparr>console := c1\<rparr>)) ids vals"
    using Cons.IH by blast
  have "promise_all (map (get_entry E sid type) (i # ids)) w =
      (Inr (zip (i # ids) (v # vals)), w\<lparr>console := c2\<rparr>)"
    using head rest by simp
  moreover have "list_all2 (yields E sid type w) (i # ids) (v # vals)"
    using v vs by simp
  ultimately show ?case
    by blast
qed

lemma get_entry_rejects:
  assumes "type = ''app-state-sync-key''"
    and "truthy (read_or_null E sid (type @ ''-'' @ i) w)"
    and "fromObject E (read_or_null E sid (type @ ''-'' @ i) w) = Inl e"
  shows "isl (fst (get_entry E sid type i (w\<lparr>console := c\<rparr>)))"
proof -
  obtain c' where "readData E sid (type @ ''-'' @ i) (w\<lparr>console := c\<rparr>) =
      (Inr (read_or_null E sid (type @ ''-'' @ i) w), w\<lparr>console := c\<rparr>\<lparr>console := c'\<rparr>)"
    using readData_resolves [of E sid "type @ ''-'' @ i" "w\<lparr>console := c\<rparr>"] by auto
  with assms show ?thesis
    by (simp add: get_entry_def await_def returned_def)
qed

lemma keys_get_rejects:
  assumes "type = ''app-state-sync-key''" and "i \<in> set ids"
    and "truthy (read_or_null E sid (type @ ''-'' @ i) w)"
    and "fromObject E (read_or_null E sid (type @ ''-'' @ i) w) = Inl e"
  shows "\<exists>e' w'. keys_get E sid type ids w = (Inl e', w')"
proof -
  let ?P = "\<lambda>w'. \<exists>c. w' = w\<lparr>console := c\<rparr>"
  have inv: "?P (snd (t w'))" if "t \<in> set (map (get_entry E sid type) ids)" "?P w'" for t w'
  proof -
    from that(1) obtain j where "t = get_entry E sid type j"
      by auto
    moreover from that(2) obtain c where "w' = w\<lparr>console := c\<rparr>"
      by blast
    ultimately show ?thesis
      using get_entry_world [of E sid type j "w\<lparr>console := c\<rparr>"] by auto
  qed
  have fail: "isl (fst (get_entry E sid type i w'))" if "?P w'" for w'
    using that get_entry_rejects [OF assms(1,3,4)] by auto
  have mem: "get_entry E sid type i \<in> set (map (get_entry E sid type) ids)"
    using assms(2) by simp
  have start: "?P w"
    by simp
  from inv fail mem start have "isl (fst (promise_all (map (get_entry E sid type) ids) w))"
    by (rule promise_all_rejects [where P = ?P])
  then show ?thesis
    by (cases "promise_all (map (get_entry E sid type) ids) w";
        cases "fst (promise_all (map (get_entry E sid type) ids) w)")
       (simp_all add: keys_get_def await_def)
qed

text \<open>
  C9, amended: \<open>readData\<close> never rejects: whatever goes wrong in its \<open>try\<close> block (a backend
  call that throws, a stored text that does not parse) is caught, and the read resolves
  to \<open>null\<close>. So for every type and list of ids, as long as no reconstruction throws
  (\<open>fromObject\<close>, called for the type \<open>app-state-sync-key\<close> on a truthy read value, outside
  the \<open>try\<close> blocks), \<open>state.keys.get\<close> returns a mapping that binds every requested id
  other than \<open>__proto__\<close> to the value that its own read yields, and to \<open>null\<close> when its
  read failed. When the reconstruction of one read value throws, the whole call rejects.
\<close>

theorem keys_get_isolates_read_failures:
  "(\<forall>key. \<exists>w'. readData E sid key w = (Inr (read_or_null E sid key w), w')) \<and>
   ((\<forall>i \<in> set ids. type = ''app-state-sync-key'' \<longrightarrow>
        truthy (read_or_null E sid (type @ ''-'' @ i) w) \<longrightarrow>
        (\<exists>v. fromObject E (read_or_null E sid (type @ ''-'' @ i) w) = Inr v)) \<longrightarrow>
    (\<exists>data w'. keys_get E sid type ids w = (Inr data, w') \<and>
       (\<forall>i \<in> set ids. i \<noteq> ''__proto__'' \<longrightarrow>
          (\<exists>v. map_of data i = Some v \<and> yields E sid type w i v) \<and>
          ((\<exists>e. fst (readData_try E sid (type @ ''-'' @ i) w) = Inl e) \<longrightarrow>
             map_of data i = Some JNull)))) \<and>
   (\<forall>i \<in> set ids. type = ''app-state-sync-key'' \<longrightarrow>
      truthy (read_or_null E sid (type @ ''-'' @ i) w) \<longrightarrow>
      (\<exists>e. fromObject E (read_or_null E sid (type @ ''-'' @ i) w) = Inl e) \<longrightarrow>
      (\<exists>e' w'. keys_get E sid type ids w = (Inl e', w')))"
proof (intro conjI allI impI ballI)
  fix key
  show "\<exists>w'. readData E sid key w = (Inr (read_or_null E sid key w), w')"
    using readData_resolves [of E sid key w] by blast
next
  assume "\<forall>i \<in> set ids. type = ''app-state-sync-key'' \<longrightarrow>
        truthy (read_or_null E sid (type @ ''-'' @ i) w) \<longrightarrow>
        (\<exists>v. fromObject E (read_or_null E sid (type @ ''-'' @ i) w) = Inr v)"
  then obtain vals c' where run: "promise_all (map (get_entry E sid type) ids) w =
      (Inr (zip ids vals), w\<lparr>console := c'\<rparr>)"
    using get_entries_yield_when by blast
  let ?bs = "zip ids vals"
  let ?data = "foldl (\<lambda>data (k, v). obj_assign data k v) [] ?bs"
  from run have returned: "keys_get E sid type ids w = (Inr ?data, w\<lparr>console := c'\<rparr>)"
    by (simp add: keys_get_def await_def resolve_def)
  from run have ids: "map fst ?bs = ids" and ys: "\<forall>(i, v) \<in> set ?bs. yields E sid type w i v"
    using get_entries_resolved by blast+
  have bound: "(\<exists>v. map_of ?data i = Some v \<and> yields E sid type w i v) \<and>
          ((\<exists>e. fst (readData_try E sid (type @ ''-'' @ i) w) = Inl e) \<longrightarrow>
             map_of ?data i = Some JNull)"
    if i: "i \<in> set ids" "i \<noteq> ''__proto__''" for i
  proof -
    from i(1) ids have "i \<in> fst ` set (rev ?bs)"
      by (metis set_map set_rev)
    then obtain v where v: "map_of (rev ?bs) i = Some v"
      by (metis map_of_eq_None_iff not_Some_eq)
    then have "(i, v) \<in> set ?bs"
      by (auto dest: map_of_SomeD)
    with ys have y: "yields E sid type w i v"
      by auto
    from v i(2) have m: "map_of ?data i = Some v"
      by (simp add: map_of_assignments)
    have "v = JNull" if "\<exists>e. fst (readData_try E sid (type @ ''-'' @ i) w) = Inl e"
      using that y by (auto simp: yields_def read_or_null_def)
    with m y show ?thesis
      by blast
  qed
  with returned show "\<exists>data w'. keys_get E sid type ids w = (Inr data, w') \<and>
       (\<forall>i \<in> set ids. i \<noteq> ''__proto__'' \<longrightarrow>
          (\<exists>v. map_of data i = Some v \<and> yields E sid type w i v) \<and>
          ((\<exists>e. fst (readData_try E sid (type @ ''-'' @ i) w) = Inl e) \<longrightarrow>
             map_of data i = Some JNull))"
    by blast
next
  fix i
  assume "i \<in> set ids" "type = ''app-state-sync-key''"
    "truthy (read_or_null E sid (type @ ''-'' @ i) w)"
    "\<exists>e. fromObject E (read_or_null E sid (type @ ''-'' @ i) w) = Inl e"
  then show "\<exists>e' w'. keys_get E sid type ids w = (Inl e', w')"
    using keys_get_rejects by blast
qed

lemma example_parses:
  "json_parse (json_print (JObj [(''public'', JStr ''AQ=='')])) = Inr (JObj [(''public'', JStr ''AQ=='')])"
  "json_parse ''{broken'' = Inl (SyntaxError ''{broken'')"
  by code_simp+



lemma sync_parses:
  "json_parse (json_print (JObj [(''keyData'', JStr ''AQ=='')])) = Inr (JObj [(''keyData'', JStr ''AQ=='')])"
  "json_parse (json_print (JObj [(''fingerprint'', JNum 5)])) = Inr (JObj [(''fingerprint'', JNum 5)])"
  by code_simp+

lemma sync_paths:
  "localFile strict_env ''s1'' ''app-state-sync-key-1'' = ''instances/s1/app-state-sync-key-1.json''"
  "localFile strict_env ''s1'' ''app-state-sync-key-2'' = ''instances/s1/app-state-sync-key-2.json''"
  "localFile strict_env ''s1'' ''app-state-sync-key-3'' = ''instances/s1/app-state-sync-key-3.json''"
  "localFile strict_env ''s1'' ''app-state-sync-key-4'' = ''instances/s1/app-state-sync-key-4.json''"
  by (simp_all add: localFile_def localFolder_def path_join_def fixFileName_def strict_env_def
        example_env_def)

lemma sync_reads:
  "readData_try strict_env ''s1'' ''app-state-sync-key-1'' sync_world =
     (Inr (JObj [(''keyData'', JStr ''AQ=='')]), sync_world)"
  "readData_try strict_env ''s1'' ''app-state-sync-key-2'' sync_world =
     (Inl (SyntaxError ''{broken''), sync_world)"
  "readData_try strict_env ''s1'' ''app-state-sync-key-3'' sync_world = (Inr JNull, sync_world)"
  "readData_try strict_env ''s1'' ''app-state-sync-key-4'' sync_world =
     (Inr (JObj [(''fingerprint'', JNum 5)]), sync_world)"
  by (simp_all add: readData_try_def isRedisEnabled_def fileExists_eq fs_readFile_def sync_paths
        promise_defs del: json_print.simps)
     (simp_all add: strict_env_def example_env_def sync_world_def empty_world_def example_parses
        sync_parses del: json_print.simps)

lemma sync_reads_logged:
  "readData_try strict_env ''s1'' ''app-state-sync-key-3'' (sync_world\<lparr>console := c\<rparr>) =
     (Inr JNull, sync_world\<lparr>console := c\<rparr>)"
  by (simp add: readData_try_def isRedisEnabled_def fileExists_eq fs_readFile_def sync_paths
        promise_defs del: json_print.simps)
     (simp add: strict_env_def example_env_def sync_world_def empty_world_def
        del: json_print.simps)

lemma sync_console: "console sync_world = []"
  by (simp add: sync_world_def empty_world_def)

lemma sync_reconstructions:
  "fromObject strict_env (JObj [(''keyData'', JStr ''AQ=='')]) = Inr (JObj [(''keyData'', JStr ''AQ=='')])"
  "fromObject strict_env (JObj [(''fingerprint'', JNum 5)]) = Inl (TypeError ''fingerprint: object expected'')"
  by (simp_all add: strict_env_def)

text \<open>
  C9, as stated, fails for the type \<open>app-state-sync-key\<close>: the entry \<open>4\<close> is read but its
  reconstruction throws, nothing catches that, and the call for the ids \<open>4\<close> and \<open>1\<close>
  rejects although the entry \<open>1\<close> reads well.
\<close>

theorem keys_get_aborted_by_reconstruction:
  "readData strict_env ''s1'' ''app-state-sync-key-1'' sync_world =
     (Inr (JObj [(''keyData'', JStr ''AQ=='')]), sync_world) \<and>
   keys_get strict_env ''s1'' ''app-state-sync-key'' [''4'', ''1''] sync_world =
     (Inl (TypeError ''fingerprint: object expected''), sync_world)"
  by (simp add: keys_get_def get_entry_def readData_def try_catch_def await_def resolve_def
        returned_def sync_reads sync_reconstructions)

theorem keys_get_isolates_read_failures_witness:
  "fromObject strict_env (JObj [(''keyData'', JStr ''AQ=='')]) = Inr (JObj [(''keyData'', JStr ''AQ=='')]) \<and>
   fst (readData_try strict_env ''s1'' ''app-state-sync-key-2'' sync_world) =
     Inl (SyntaxError ''{broken'') \<and>
   keys_get strict_env ''s1'' ''app-state-sync-key'' [''1'', ''2'', ''3''] sync_world =
     (Inr [(''1'', JObj [(''keyData'', JStr ''AQ=='')]), (''2'', JNull), (''3'', JNull)],
      sync_world\<lparr>console := [''Error reading data for key app-state-sync-key-2:'']\<rparr>) \<and>
   map_of [(''1'', JObj [(''keyData'', JStr ''AQ=='')]), (''2'', JNull), (''3'', JNull)] ''2'' = Some JNull"
proof -
  have vals: "read_or_null strict_env ''s1'' ''app-state-sync-key-1'' sync_world =
      JObj [(''keyData'', JStr ''AQ=='')]"
    "read_or_null strict_env ''s1'' ''app-state-sync-key-2'' sync_world = JNull"
    "read_or_null strict_env ''s1'' ''app-state-sync-key-3'' sync_world = JNull"
    by (simp_all add: read_or_null_def sync_reads)
  have reconstructs: "\<forall>i \<in> set [''1'', ''2'', ''3'']. ''app-state-sync-key'' = ''app-state-sync-key'' \<longrightarrow>
      truthy (read_or_null strict_env ''s1'' (''app-state-sync-key'' @ ''-'' @ i) sync_world) \<longrightarrow>
      (\<exists>v. fromObject strict_env
              (read_or_null strict_env ''s1'' (''app-state-sync-key'' @ ''-'' @ i) sync_world) = Inr v)"
    by (simp add: vals sync_reconstructions)
  have fails: "fst (readData_try strict_env ''s1'' ''app-state-sync-key-2'' sync_world) =
     Inl (SyntaxError ''{broken'')"
    by (simp add: sync_reads)
  have run: "keys_get strict_env ''s1'' ''app-state-sync-key'' [''1'', ''2'', ''3''] sync_world =
     (Inr [(''1'', JObj [(''keyData'', JStr ''AQ=='')]), (''2'', JNull), (''3'', JNull)],
      sync_world\<lparr>console := [''Error reading data for key app-state-sync-key-2:'']\<rparr>)"
    by (simp add: keys_get_def get_entry_def readData_def try_catch_def await_def resolve_def
          returned_def console_error_def sync_reads sync_reads_logged sync_console
          sync_reconstructions obj_assign_def)
  from keys_get_isolates_read_failures
         [of strict_env "''s1''" sync_world "[''1'', ''2'', ''3'']" "''app-state-sync-key''"]
    reconstructs
  obtain data w' where "keys_get strict_env ''s1'' ''app-state-sync-key'' [''1'', ''2'', ''3''] sync_world =
      (Inr data, w')" and "map_of data ''2'' = Some JNull"
    using fails by auto
  with run sync_reconstructions(1) fails show ?thesis
    by simp
qed


end
